theory Spec2Isabelle
  imports Complex_Main
begin

section \<open>Python values used by \<open>core/display.py\<close>\<close>

text \<open>
  A Python \<open>str\<close> is a sequence of Unicode code points and \<open>len\<close> counts code points, so
  a string is modelled as the list of its code points. \<open>lit\<close> turns an ASCII literal of
  the source into that representation. Clock readings (\<open>time.time()\<close>) are modelled as
  real numbers; no claim below depends on floating-point rounding.
\<close>

type_synonym pystr = "nat list"

definition lit :: "string \<Rightarrow> pystr" where
  "lit s = map of_char s"

definition nl :: pystr where
  "nl = [10]"

text \<open>
  The values an event may carry under \<open>tool\<close>, \<open>args\<close> and \<open>result\<close>: \<open>None\<close> (also what
  \<open>dict.get\<close> returns for an absent key), a \<open>str\<close>, or any other object, which the code only
  ever formats with \<open>str()\<close>; \<open>PObj\<close> carries that text.
\<close>

datatype pyval = PNone | PStr pystr | PObj pystr

fun py_str :: "pyval \<Rightarrow> pystr" where
  "py_str PNone = lit ''None''"
| "py_str (PStr s) = s"
| "py_str (PObj s) = s"

text \<open>\<open>"".join(parts)\<close>\<close>

definition join :: "pystr list \<Rightarrow> pystr" where
  "join parts = concat parts"

text \<open>\<open>text.replace(old, new)\<close> for a pattern \<open>old\<close> of one character, the only use in the source.\<close>

definition replace_char :: "nat \<Rightarrow> pystr \<Rightarrow> pystr \<Rightarrow> pystr" where
  "replace_char old new text = concat (map (\<lambda>c. if c = old then new else [c]) text)"

section \<open>Data model\<close>

text \<open>
  \<open>self.logs\<close> is a list of \<open>(type, content)\<close> tuples with the three types
  \<open>'thinking'\<close>, \<open>'tool_call'\<close>, \<open>'tool_result'\<close>. The content of the first two is a \<open>str\<close>
  built by \<open>update\<close>; the content of a result is the event's \<open>result\<close> object as it came.
\<close>

datatype log_entry = Thinking pystr | Tool_call pystr | Tool_result pyval

text \<open>
  The fields of \<open>AgentDisplay\<close>. \<open>context\<close> (the sink) is the environment of \<open>tick\<close> below;
  \<open>lock\<close> only serialises renders and has no content in a sequential run.
\<close>

record AgentDisplay =
  chat_id :: int
  message_id :: int
  logs :: "log_entry list"
  final_response_parts :: "pystr list"
  last_render_time :: real
  render_interval :: real
  current_thinking_buffer :: "pystr list"

text \<open>
  The event dictionary \<open>state_update\<close>, read with \<open>.get\<close>: \<open>None\<close> stands for an absent key
  or the value \<open>None\<close>. \<open>status\<close> and \<open>content\<close> are text, as the event producer emits them.
\<close>

record state_update =
  status :: "pystr option"
  content :: "pystr option"
  tool :: pyval
  args :: pyval
  result :: pyval

text \<open>
  What can come out of \<open>await bot.edit_message_text(...)\<close>: it returns, or it raises.
  \<open>except Exception\<close> catches the instances of \<open>Exception\<close> (every error of the sink's
  library is one) and lets the other \<open>BaseException\<close>s through (task cancellation,
  \<open>KeyboardInterrupt\<close>).
\<close>

datatype exn = Exception pystr | BaseException pystr

datatype reply = Edited | Raises exn

text \<open>
  The environment of one \<open>update\<close> call: the clock reading taken at the start of
  \<open>_try_render\<close>, the sink's reply should the edit be attempted, and the clock reading
  taken after a successful edit.
\<close>

record tick =
  t_now :: real
  sink_reply :: reply
  t_done :: real

text \<open>
  The outcome of one \<open>update\<close> call: the object's state afterwards, the edit calls made on
  the sink as \<open>(chat_id, message_id, text)\<close>, and the exception that left \<open>update\<close>, if any.
\<close>

record outcome =
  state :: AgentDisplay
  sent :: "(int \<times> int \<times> pystr) list"
  raised :: "exn option"

section \<open>Operations\<close>

text \<open>\<open>AgentDisplay.__init__\<close>\<close>

definition init :: "int \<Rightarrow> int \<Rightarrow> AgentDisplay" where
  "init c m = \<lparr> chat_id = c, message_id = m, logs = [], final_response_parts = [],
     last_render_time = 0, render_interval = 2, current_thinking_buffer = [] \<rparr>"

text \<open>\<open>AgentDisplay._sanitize_html\<close>\<close>

definition sanitize_html :: "pystr \<Rightarrow> pystr" where
  "sanitize_html text =
     (if text = [] then []
      else replace_char 62 (lit ''&gt;'')
             (replace_char 60 (lit ''&lt;'')
               (replace_char 38 (lit ''&amp;'') text)))"

text \<open>
  The non-ASCII prefixes of the rendered lines, as the code points of the source file's
  literals.
\<close>

definition glyph_think :: pystr where
  "glyph_think = [0xF0, 0x178, 0xA7, 0xA0]"

definition glyph_exec :: pystr where
  "glyph_exec = [0xF0, 0x178, 0x203A, 0xA0]"

definition glyph_result :: pystr where
  "glyph_result = [0xE2, 0x153, 0x2026]"

text \<open>The body of the loop over \<open>self.logs\<close> in \<open>_build_text\<close>: the text one entry adds.\<close>

fun render_entry :: "log_entry \<Rightarrow> pystr" where
  "render_entry (Thinking c) =
     glyph_think @ lit '' <i>Thought:</i> '' @ sanitize_html c @ nl @ nl"
| "render_entry (Tool_call c) =
     glyph_exec @ lit '' <b>Exec:</b> <code>'' @ sanitize_html c @ lit ''</code>'' @ nl"
| "render_entry (Tool_result c) =
     glyph_result @ lit '' <b>Result:</b> ''
       @ sanitize_html (take 200 (py_str c) @ (if length (py_str c) > 200 then lit ''...'' else []))
       @ nl @ nl"

text \<open>The loop itself, \<open>log_text += ...\<close> for each entry in order.\<close>

fun render_logs :: "pystr \<Rightarrow> log_entry list \<Rightarrow> pystr" where
  "render_logs log_text [] = log_text"
| "render_logs log_text (e # es) = render_logs (log_text @ render_entry e) es"

text \<open>
  Lines 109 to 125 of \<open>_build_text\<close>: the log section before the length cap, that is the
  rendered entries followed by the live thinking buffer, if any.
\<close>

definition assemble_log :: "AgentDisplay \<Rightarrow> pystr" where
  "assemble_log d =
     (let current_think = join (current_thinking_buffer d);
          log_text = render_logs [] (logs d)
      in if current_think \<noteq> []
         then log_text @ glyph_think @ lit '' <i>Thinking...</i> '' @ sanitize_html current_think @ nl
         else log_text)"

text \<open>
  Lines 129 to 131: the cap. \<open>log_text[-(max_log_len):]\<close> on a string longer than
  \<open>max_log_len\<close> is its last \<open>max_log_len\<close> characters.
\<close>

definition max_log_len :: nat where
  "max_log_len = 2000"

definition cap_log :: "pystr \<Rightarrow> pystr" where
  "cap_log log_text =
     (if length log_text > max_log_len
      then lit ''...(earlier logs)...'' @ nl @ drop (length log_text - max_log_len) log_text
      else log_text)"

text \<open>\<open>AgentDisplay._build_text\<close>\<close>

definition build_text :: "AgentDisplay \<Rightarrow> pystr" where
  "build_text d =
     (let log_text = cap_log (assemble_log d);
          final_text = join (final_response_parts d);
          full_text = (if log_text \<noteq> []
                       then lit ''<blockquote>'' @ log_text @ lit ''</blockquote>'' @ nl @ nl
                       else []);
          full_text = full_text @ sanitize_html final_text
      in if full_text = [] then lit ''...'' else full_text)"

text \<open>
  \<open>AgentDisplay._try_render\<close>. The timestamp is set from a second clock reading, after the
  edit has returned. An \<open>Exception\<close> from the sink is swallowed (\<open>pass\<close>); the text
  assembly itself cannot raise on this data model.
\<close>

definition try_render :: "AgentDisplay \<Rightarrow> bool \<Rightarrow> tick \<Rightarrow> outcome" where
  "try_render d force tk =
     (if \<not> force \<and> t_now tk - last_render_time d < render_interval d
      then \<lparr> state = d, sent = [], raised = None \<rparr>
      else
        (let text = build_text d;
             call = (chat_id d, message_id d, text)
         in case sink_reply tk of
              Edited \<Rightarrow>
                \<lparr> state = d\<lparr> last_render_time := t_done tk \<rparr>, sent = [call], raised = None \<rparr>
            | Raises (Exception e) \<Rightarrow>
                \<lparr> state = d, sent = [call], raised = None \<rparr>
            | Raises (BaseException e) \<Rightarrow>
                \<lparr> state = d, sent = [call], raised = Some (BaseException e) \<rparr>))"

text \<open>The block repeated in three branches of \<open>update\<close>: "Flush thinking buffer if any".\<close>

definition flush_thinking :: "AgentDisplay \<Rightarrow> AgentDisplay" where
  "flush_thinking d =
     (if current_thinking_buffer d \<noteq> []
      then d\<lparr> logs := logs d @ [Thinking (join (current_thinking_buffer d))],
              current_thinking_buffer := [] \<rparr>
      else d)"

text \<open>
  Lines 26 to 69 of \<open>update\<close>: the dispatch on \<open>status\<close>, giving the new state and
  \<open>should_render\<close>. \<open>if content:\<close> holds for a non-empty \<open>str\<close>.
\<close>

definition apply_event :: "AgentDisplay \<Rightarrow> state_update \<Rightarrow> AgentDisplay \<times> bool" where
  "apply_event d u =
     (if status u = Some (lit ''thinking'') then
        (case content u of
           Some c \<Rightarrow>
             if c \<noteq> []
             then (d\<lparr> current_thinking_buffer := current_thinking_buffer d @ [c] \<rparr>, True)
             else (d, False)
         | None \<Rightarrow> (d, False))
      else if status u = Some (lit ''tool_use'') then
        (let d1 = flush_thinking d
         in (d1\<lparr> logs := logs d1 @
                    [Tool_call (py_str (tool u) @ lit ''('' @ py_str (args u) @ lit '')'')] \<rparr>,
             True))
      else if status u = Some (lit ''observation'') then
        (d\<lparr> logs := logs d @ [Tool_result (result u)] \<rparr>, True)
      else if status u = Some (lit ''final_stream'') then
        (let d1 = flush_thinking d
         in case content u of
              Some c \<Rightarrow>
                if c \<noteq> []
                then (d1\<lparr> final_response_parts := final_response_parts d1 @ [c] \<rparr>, True)
                else (d1, False)
            | None \<Rightarrow> (d1, False))
      else if status u = Some (lit ''final'') then
        (let d1 = flush_thinking d
         in (d1\<lparr> final_response_parts :=
                    (case content u of
                       Some c \<Rightarrow> if c \<noteq> [] then [c] else []
                     | None \<Rightarrow> []) \<rparr>,
             True))
      else (d, False))"

text \<open>\<open>AgentDisplay.update\<close>\<close>

definition update :: "AgentDisplay \<Rightarrow> state_update \<Rightarrow> tick \<Rightarrow> outcome" where
  "update d u tk =
     (case apply_event d u of
        (d', should_render) \<Rightarrow>
          if should_render then try_render d' False tk
          else \<lparr> state = d', sent = [], raised = None \<rparr>)"

text \<open>
  A run: the object receives one \<open>update\<close> call after the other, each completing before
  the next starts.
\<close>

fun run :: "AgentDisplay \<Rightarrow> (state_update \<times> tick) list \<Rightarrow> AgentDisplay" where
  "run d [] = d"
| "run d ((u, tk) # rest) = run (state (update d u tk)) rest"

text \<open>Event constructors, for the concrete scenarios.\<close>

definition ev :: "string \<Rightarrow> pystr option \<Rightarrow> state_update" where
  "ev s c = \<lparr> status = Some (lit s), content = c, tool = PNone, args = PNone, result = PNone \<rparr>"

definition observation :: "pyval \<Rightarrow> state_update" where
  "observation r =
     \<lparr> status = Some (lit ''observation''), content = None, tool = PNone, args = PNone, result = r \<rparr>"

definition tick_at :: "real \<Rightarrow> reply \<Rightarrow> real \<Rightarrow> tick" where
  "tick_at t r t' = \<lparr> t_now = t, sink_reply = r, t_done = t' \<rparr>"

text \<open>The flush-triggering events.\<close>

definition flushes :: "state_update \<Rightarrow> bool" where
  "flushes u \<longleftrightarrow> status u = Some (lit ''tool_use'') \<or> status u = Some (lit ''final_stream'')
     \<or> status u = Some (lit ''final'')"

text \<open>The flag \<open>should_render\<close> that \<open>update\<close> computes for an event: whether it is dirty.\<close>

definition should_render :: "AgentDisplay \<Rightarrow> state_update \<Rightarrow> bool" where
  "should_render d u = snd (apply_event d u)"


text \<open>Two states that agree on everything \<open>_build_text\<close> reads.\<close>

definition same_content :: "AgentDisplay \<Rightarrow> AgentDisplay \<Rightarrow> bool" where
  "same_content d d' \<longleftrightarrow> logs d = logs d' \<and> final_response_parts d = final_response_parts d'
     \<and> current_thinking_buffer d = current_thinking_buffer d'"

text \<open>The events that put a fragment into the thinking buffer.\<close>

definition adds_thought :: "state_update \<Rightarrow> bool" where
  "adds_thought u \<longleftrightarrow> status u = Some (lit ''thinking'')
     \<and> (case content u of Some c \<Rightarrow> c \<noteq> [] | None \<Rightarrow> False)"

section \<open>Basic facts\<close>

lemma replace_char_Nil: "replace_char old new [] = []"
  by (simp add: replace_char_def)

lemma replace_char_append:
  "replace_char old new (xs @ ys) = replace_char old new xs @ replace_char old new ys"
  by (simp add: replace_char_def)

lemma sanitize_html_Nil: "sanitize_html [] = []"
  by (simp add: sanitize_html_def)

lemma sanitize_html_append: "sanitize_html (xs @ ys) = sanitize_html xs @ sanitize_html ys"
  by (simp add: sanitize_html_def replace_char_append replace_char_Nil)

lemma replace_char_absent: "old \<notin> set s \<Longrightarrow> replace_char old new s = s"
  by (induction s) (auto simp: replace_char_def)

lemma sanitize_html_plain:
  "38 \<notin> set s \<Longrightarrow> 60 \<notin> set s \<Longrightarrow> 62 \<notin> set s \<Longrightarrow> sanitize_html s = s"
  by (simp add: sanitize_html_def replace_char_absent)

lemma render_logs_concat: "render_logs acc es = acc @ concat (map render_entry es)"
  by (induction es arbitrary: acc) auto

lemma flush_thinking_buffer: "current_thinking_buffer (flush_thinking d) = []"
  by (simp add: flush_thinking_def)

lemma flush_thinking_time:
  "last_render_time (flush_thinking d) = last_render_time d"
  "render_interval (flush_thinking d) = render_interval d"
  "chat_id (flush_thinking d) = chat_id d"
  "message_id (flush_thinking d) = message_id d"
  by (simp_all add: flush_thinking_def)

lemma apply_event_flushes:
  "flushes u \<Longrightarrow> current_thinking_buffer (fst (apply_event d u)) = []"
  by (auto simp: flushes_def apply_event_def lit_def Let_def flush_thinking_buffer split: option.splits)

lemma apply_event_time:
  "last_render_time (fst (apply_event d u)) = last_render_time d"
  "render_interval (fst (apply_event d u)) = render_interval d"
  "chat_id (fst (apply_event d u)) = chat_id d"
  "message_id (fst (apply_event d u)) = message_id d"
  by (auto simp: apply_event_def Let_def flush_thinking_time split: option.splits)

lemma try_render_accumulators:
  "logs (state (try_render d force tk)) = logs d"
  "final_response_parts (state (try_render d force tk)) = final_response_parts d"
  "current_thinking_buffer (state (try_render d force tk)) = current_thinking_buffer d"
  "render_interval (state (try_render d force tk)) = render_interval d"
  "chat_id (state (try_render d force tk)) = chat_id d"
  "message_id (state (try_render d force tk)) = message_id d"
  by (auto simp: try_render_def Let_def split: reply.splits exn.splits)

lemma update_accumulators:
  "logs (state (update d u tk)) = logs (fst (apply_event d u))"
  "final_response_parts (state (update d u tk)) = final_response_parts (fst (apply_event d u))"
  "current_thinking_buffer (state (update d u tk)) = current_thinking_buffer (fst (apply_event d u))"
  "render_interval (state (update d u tk)) = render_interval d"
  "chat_id (state (update d u tk)) = chat_id d"
  "message_id (state (update d u tk)) = message_id d"
  by (auto simp: update_def try_render_accumulators apply_event_time split: prod.splits)
   (metis apply_event_time fst_conv)+

lemma update_state_cases:
  "state (update d u tk) = fst (apply_event d u) \<or>
   state (update d u tk) = (fst (apply_event d u))\<lparr> last_render_time := t_done tk \<rparr>"
  by (auto simp: update_def try_render_def Let_def split: prod.splits reply.splits exn.splits)

lemma run_snoc: "run d (steps @ [(u, tk)]) = state (update (run d steps) u tk)"
  by (induction d steps rule: run.induct) auto

lemma apply_event_buffer:
  "current_thinking_buffer (fst (apply_event d u)) =
     (if status u = Some (lit ''thinking'')
      then (case content u of
              Some c \<Rightarrow> if c \<noteq> [] then current_thinking_buffer d @ [c]
                        else current_thinking_buffer d
            | None \<Rightarrow> current_thinking_buffer d)
      else if flushes u then [] else current_thinking_buffer d)"
  by (auto simp: apply_event_def flushes_def lit_def Let_def flush_thinking_def split: option.splits)

lemma update_buffer_nonempty:
  assumes "current_thinking_buffer (state (update d u tk)) \<noteq> []"
  shows "adds_thought u \<or> (\<not> flushes u \<and> current_thinking_buffer d \<noteq> [])"
  using assms
  by (auto simp: update_accumulators apply_event_buffer adds_thought_def flushes_def lit_def
      split: if_splits option.splits)

lemma run_buffer_nonempty:
  "current_thinking_buffer (run d steps) \<noteq> [] \<Longrightarrow>
     (current_thinking_buffer d \<noteq> [] \<and> (\<forall>x \<in> set steps. \<not> flushes (fst x)))
     \<or> (\<exists>pre u tk post. steps = pre @ (u, tk) # post \<and> adds_thought u
            \<and> (\<forall>x \<in> set post. \<not> flushes (fst x)))"
proof (induction steps rule: rev_induct)
  case Nil
  then show ?case by simp
next
  case (snoc x steps)
  obtain u tk where x: "x = (u, tk)"
    by (cases x)
  from snoc.prems have ne: "current_thinking_buffer (state (update (run d steps) u tk)) \<noteq> []"
    by (simp add: x run_snoc)
  from update_buffer_nonempty [OF ne]
  show ?case
  proof
    assume "adds_thought u"
    then have "steps @ [x] = steps @ (u, tk) # [] \<and> adds_thought u
        \<and> (\<forall>y \<in> set []. \<not> flushes (fst y))"
      by (simp add: x)
    then show ?thesis by blast
  next
    assume keep: "\<not> flushes u \<and> current_thinking_buffer (run d steps) \<noteq> []"
    with snoc.IH have "(current_thinking_buffer d \<noteq> [] \<and> (\<forall>x \<in> set steps. \<not> flushes (fst x)))
     \<or> (\<exists>pre u tk post. steps = pre @ (u, tk) # post \<and> adds_thought u
            \<and> (\<forall>x \<in> set post. \<not> flushes (fst x)))"
      by blast
    then show ?thesis
    proof
      assume "current_thinking_buffer d \<noteq> [] \<and> (\<forall>x \<in> set steps. \<not> flushes (fst x))"
      with keep show ?thesis by (simp add: x)
    next
      assume "\<exists>pre u tk post. steps = pre @ (u, tk) # post \<and> adds_thought u
            \<and> (\<forall>x \<in> set post. \<not> flushes (fst x))"
      then obtain pre u' tk' post where s: "steps = pre @ (u', tk') # post" and a: "adds_thought u'"
        and n: "\<forall>x \<in> set post. \<not> flushes (fst x)"
        by blast
      from s have "steps @ [x] = pre @ (u', tk') # (post @ [x])"
        by simp
      moreover from n keep have "\<forall>y \<in> set (post @ [x]). \<not> flushes (fst y)"
        by (simp add: x)
      ultimately show ?thesis
        using a by blast
    qed
  qed
qed

lemma same_content_refl: "same_content d d"
  by (simp add: same_content_def)











lemma replace_char_replicate: "replace_char c new (replicate n c) = concat (replicate n new)"
  by (induction n) (simp_all add: replace_char_def)

lemma sanitize_html_replicate_plain:
  "c \<noteq> 38 \<Longrightarrow> c \<noteq> 60 \<Longrightarrow> c \<noteq> 62 \<Longrightarrow> sanitize_html (replicate n c) = replicate n c"
  by (rule sanitize_html_plain) auto

lemma sanitize_html_replicate_lt:
  "sanitize_html (replicate n 60) = concat (replicate n (lit ''&lt;''))"
proof (cases "n = 0")
  case True
  then show ?thesis by (simp add: sanitize_html_def)
next
  case False
  have a: "replace_char 38 (lit ''&amp;'') (replicate n 60) = replicate n 60"
    by (rule replace_char_absent) auto
  have b: "62 \<notin> set (concat (replicate n (lit ''&lt;'')))"
    by (auto simp: lit_def)
  from False show ?thesis
    by (simp add: sanitize_html_def a replace_char_replicate replace_char_absent [OF b])
qed

lemma length_concat_replicate: "length (concat (replicate n xs)) = n * length xs"
  by (induction n) simp_all

lemma cap_log_length: "length (cap_log s) \<le> 2021"
  by (simp add: cap_log_def max_log_len_def lit_def nl_def)

lemma build_text_length_bound:
  "length (build_text d) \<le> 2048 + length (sanitize_html (join (final_response_parts d)))"
proof -
  have "length (cap_log (assemble_log d)) \<le> 2021"
    by (rule cap_log_length)
  then show ?thesis
    by (simp add: build_text_def Let_def lit_def nl_def)
qed

section \<open>Flushing the thinking buffer\<close>

text \<open>
  Claim C1. In a state whose thinking buffer is not empty, an \<open>update\<close> with status
  \<open>tool_use\<close>, \<open>final_stream\<close> or \<open>final\<close> appends exactly one \<open>Thinking\<close> entry to the log,
  whose text is the concatenation of the buffered fragments in arrival order (followed by
  the \<open>Tool_call\<close> entry when the event is a \<open>tool_use\<close>), and leaves the buffer empty.
\<close>

theorem flush_appends_one_thought:
  assumes "current_thinking_buffer d \<noteq> []" and "flushes u"
  shows "current_thinking_buffer (state (update d u tk)) = [] \<and>
         logs (state (update d u tk)) =
           logs d @ [Thinking (join (current_thinking_buffer d))] @
             (if status u = Some (lit ''tool_use'')
              then [Tool_call (py_str (tool u) @ lit ''('' @ py_str (args u) @ lit '')'')]
              else [])"
proof -
  have "current_thinking_buffer (fst (apply_event d u)) = []"
    using assms(2) by (rule apply_event_flushes)
  moreover have "logs (fst (apply_event d u)) =
           logs d @ [Thinking (join (current_thinking_buffer d))] @
             (if status u = Some (lit ''tool_use'')
              then [Tool_call (py_str (tool u) @ lit ''('' @ py_str (args u) @ lit '')'')]
              else [])"
    using assms
    by (auto simp: flushes_def apply_event_def lit_def Let_def flush_thinking_def split: option.splits)
  ultimately show ?thesis
    by (simp add: update_accumulators)
qed

theorem flush_appends_one_thought_witness:
  "current_thinking_buffer (run (init 7 9)
       [(ev ''thinking'' (Some (lit ''ab'')), tick_at 1000 Edited 1000),
        (ev ''thinking'' (Some (lit ''cd'')), tick_at 1001 Edited 1001)]) = [lit ''ab'', lit ''cd'']
   \<and> flushes (ev ''final'' None)
   \<and> current_thinking_buffer (run (init 7 9)
       [(ev ''thinking'' (Some (lit ''ab'')), tick_at 1000 Edited 1000),
        (ev ''thinking'' (Some (lit ''cd'')), tick_at 1001 Edited 1001),
        (ev ''final'' None, tick_at 1002 Edited 1002)]) = []
   \<and> logs (run (init 7 9)
       [(ev ''thinking'' (Some (lit ''ab'')), tick_at 1000 Edited 1000),
        (ev ''thinking'' (Some (lit ''cd'')), tick_at 1001 Edited 1001),
        (ev ''final'' None, tick_at 1002 Edited 1002)]) = [Thinking (lit ''abcd'')]"
proof -
  let ?d = "run (init 7 9)
       [(ev ''thinking'' (Some (lit ''ab'')), tick_at 1000 Edited 1000),
        (ev ''thinking'' (Some (lit ''cd'')), tick_at 1001 Edited 1001)]"
  have b: "current_thinking_buffer ?d = [lit ''ab'', lit ''cd'']"
    by (simp add: init_def ev_def tick_at_def update_def apply_event_def try_render_def lit_def Let_def)
  have l: "logs ?d = []"
    by (simp add: init_def ev_def tick_at_def update_def apply_event_def try_render_def lit_def Let_def)
  have f: "flushes (ev ''final'' None)"
    by (simp add: flushes_def ev_def)
  have ne: "current_thinking_buffer ?d \<noteq> []"
    using b by simp
  have s: "status (ev ''final'' None) \<noteq> Some (lit ''tool_use'')"
    by (simp add: ev_def lit_def)
  from flush_appends_one_thought [OF ne f, of "tick_at 1002 Edited 1002"] b l f s
  show ?thesis
    by (simp add: join_def lit_def)
qed

text \<open>
  Claim C3, as stated, fails: an \<open>observation\<close> event does not flush, so after a
  \<open>thinking\<close> event followed by an \<open>observation\<close> the buffer is not empty although the
  most recent event is not a \<open>thinking\<close> event.
\<close>

theorem pending_after_observation_counterexample:
  "current_thinking_buffer (run (init 7 9)
      [(ev ''thinking'' (Some (lit ''a'')), tick_at 1000 Edited 1000),
       (observation (PStr (lit ''r'')), tick_at 1003 Edited 1003)]) \<noteq> []
   \<and> status (fst (last
      [(ev ''thinking'' (Some (lit ''a'')), tick_at 1000 Edited 1000),
       (observation (PStr (lit ''r'')), tick_at 1003 Edited 1003)])) \<noteq> Some (lit ''thinking'')"
  by (simp add: init_def ev_def observation_def tick_at_def update_def apply_event_def
      try_render_def lit_def Let_def)

text \<open>
  Claim C3, amended. In every state reached from a fresh display by \<open>update\<close> calls, the
  thinking buffer is non-empty only if some \<open>thinking\<close> event with non-empty content has
  been processed and no \<open>tool_use\<close>, \<open>final_stream\<close> or \<open>final\<close> event has been processed
  after it; and the buffer is empty immediately after any of these three events.
\<close>

theorem pending_only_after_unflushed_thinking:
  "(current_thinking_buffer (run (init c m) steps) \<noteq> [] \<longrightarrow>
      (\<exists>pre u tk post. steps = pre @ (u, tk) # post \<and> adds_thought u
          \<and> (\<forall>x \<in> set post. \<not> flushes (fst x))))
   \<and> (steps \<noteq> [] \<and> flushes (fst (last steps)) \<longrightarrow>
        current_thinking_buffer (run (init c m) steps) = [])"
proof -
  have "current_thinking_buffer (init c m) = []"
    by (simp add: init_def)
  with run_buffer_nonempty [of "init c m" steps]
  have first: "current_thinking_buffer (run (init c m) steps) \<noteq> [] \<longrightarrow>
      (\<exists>pre u tk post. steps = pre @ (u, tk) # post \<and> adds_thought u
          \<and> (\<forall>x \<in> set post. \<not> flushes (fst x)))"
    by blast
  have second: "current_thinking_buffer (run (init c m) steps) = []"
    if "steps \<noteq> []" and f: "flushes (fst (last steps))"
  proof -
    from that(1) obtain pre x where s: "steps = pre @ [x]"
      by (metis append_butlast_last_id)
    obtain u tk where x: "x = (u, tk)"
      by (cases x)
    from f s x have "flushes u"
      by simp
    then show ?thesis
      by (simp add: s x run_snoc update_accumulators apply_event_flushes)
  qed
  from first second show ?thesis
    by blast
qed

theorem pending_only_after_unflushed_thinking_witness:
  "current_thinking_buffer (run (init 7 9)
      [(ev ''thinking'' (Some (lit ''a'')), tick_at 1000 Edited 1000),
       (observation (PStr (lit ''r'')), tick_at 1003 Edited 1003)]) \<noteq> []
   \<and> (\<exists>pre u tk post.
        [(ev ''thinking'' (Some (lit ''a'')), tick_at 1000 Edited 1000),
         (observation (PStr (lit ''r'')), tick_at 1003 Edited 1003)] = pre @ (u, tk) # post
        \<and> adds_thought u \<and> (\<forall>x \<in> set post. \<not> flushes (fst x)))
   \<and> flushes (fst (last
        [(ev ''thinking'' (Some (lit ''a'')), tick_at 1000 Edited 1000),
         (ev ''tool_use'' None, tick_at 1003 Edited 1003)]))
   \<and> current_thinking_buffer (run (init 7 9)
        [(ev ''thinking'' (Some (lit ''a'')), tick_at 1000 Edited 1000),
         (ev ''tool_use'' None, tick_at 1003 Edited 1003)]) = []"
proof -
  let ?s1 = "[(ev ''thinking'' (Some (lit ''a'')), tick_at 1000 Edited 1000),
       (observation (PStr (lit ''r'')), tick_at 1003 Edited 1003)]"
  let ?s2 = "[(ev ''thinking'' (Some (lit ''a'')), tick_at 1000 Edited 1000),
         (ev ''tool_use'' None, tick_at 1003 Edited 1003)]"
  have ne: "current_thinking_buffer (run (init 7 9) ?s1) \<noteq> []"
    by (simp add: init_def ev_def observation_def tick_at_def update_def apply_event_def
      try_render_def lit_def Let_def)
  have f: "?s2 \<noteq> [] \<and> flushes (fst (last ?s2))"
    by (simp add: flushes_def ev_def)
  from pending_only_after_unflushed_thinking [of 7 9 ?s1] ne
  have a: "\<exists>pre u tk post. ?s1 = pre @ (u, tk) # post
        \<and> adds_thought u \<and> (\<forall>x \<in> set post. \<not> flushes (fst x))"
    by blast
  from pending_only_after_unflushed_thinking [of 7 9 ?s2] f
  have b: "current_thinking_buffer (run (init 7 9) ?s2) = []"
    by blast
  from ne a f b show ?thesis
    by blast
qed

section \<open>The final event replaces the answer\<close>

text \<open>
  Claim C2. An \<open>update\<close> with status \<open>final\<close>, after any earlier events, leaves
  \<open>final_response_parts\<close> equal to the one fragment \<open>content\<close> (to nothing when \<open>content\<close> is
  absent or empty), so the final-answer text is exactly \<open>content\<close> whatever was streamed
  before. The witness is the scenario \<open>final_stream("a")\<close>, \<open>final_stream("b")\<close>, \<open>final("c")\<close>
  on a fresh display, whose rendered text is \<open>"c"\<close>.
\<close>

theorem final_replaces_answer:
  assumes "status u = Some (lit ''final'')"
  shows "final_response_parts (run d (steps @ [(u, tk)])) =
           (case content u of Some c \<Rightarrow> if c \<noteq> [] then [c] else [] | None \<Rightarrow> [])
         \<and> join (final_response_parts (run d (steps @ [(u, tk)]))) =
           (case content u of Some c \<Rightarrow> c | None \<Rightarrow> [])"
proof -
  have "final_response_parts (fst (apply_event (run d steps) u)) =
           (case content u of Some c \<Rightarrow> if c \<noteq> [] then [c] else [] | None \<Rightarrow> [])"
    using assms by (simp add: apply_event_def lit_def Let_def)
  then show ?thesis
    by (simp add: run_snoc update_accumulators join_def split: option.splits)
qed

theorem final_replaces_answer_witness:
  "status (ev ''final'' (Some (lit ''c''))) = Some (lit ''final'')
   \<and> final_response_parts (run (init 7 9)
        [(ev ''final_stream'' (Some (lit ''a'')), tick_at 1000 Edited 1000),
         (ev ''final_stream'' (Some (lit ''b'')), tick_at 1001 Edited 1001)]) = [lit ''a'', lit ''b'']
   \<and> final_response_parts (run (init 7 9)
        [(ev ''final_stream'' (Some (lit ''a'')), tick_at 1000 Edited 1000),
         (ev ''final_stream'' (Some (lit ''b'')), tick_at 1001 Edited 1001),
         (ev ''final'' (Some (lit ''c'')), tick_at 1002 Edited 1002)]) = [lit ''c'']
   \<and> build_text (run (init 7 9)
        [(ev ''final_stream'' (Some (lit ''a'')), tick_at 1000 Edited 1000),
         (ev ''final_stream'' (Some (lit ''b'')), tick_at 1001 Edited 1001),
         (ev ''final'' (Some (lit ''c'')), tick_at 1002 Edited 1002)]) = lit ''c''"
proof -
  let ?pre = "[(ev ''final_stream'' (Some (lit ''a'')), tick_at 1000 Edited 1000),
         (ev ''final_stream'' (Some (lit ''b'')), tick_at 1001 Edited 1001)]"
  let ?u = "ev ''final'' (Some (lit ''c''))"
  have s: "status ?u = Some (lit ''final'')"
    by (simp add: ev_def)
  have c: "content ?u = Some (lit ''c'')"
    by (simp add: ev_def)
  have p: "final_response_parts (run (init 7 9) ?pre) = [lit ''a'', lit ''b'']"
    by (simp add: init_def ev_def tick_at_def update_def apply_event_def try_render_def
        flush_thinking_def lit_def Let_def)
  have parts: "final_response_parts (run (init 7 9) (?pre @ [(?u, tick_at 1002 Edited 1002)])) = [lit ''c'']"
    using final_replaces_answer [OF s, of "init 7 9" ?pre "tick_at 1002 Edited 1002"] c
    by (simp add: lit_def)
  have l: "logs (run (init 7 9) (?pre @ [(?u, tick_at 1002 Edited 1002)])) = []"
    by (simp add: init_def ev_def tick_at_def update_def apply_event_def try_render_def
        flush_thinking_def lit_def Let_def)
  have b: "current_thinking_buffer (run (init 7 9) (?pre @ [(?u, tick_at 1002 Edited 1002)])) = []"
    by (simp add: init_def ev_def tick_at_def update_def apply_event_def try_render_def
        flush_thinking_def lit_def Let_def)
  have "build_text (run (init 7 9) (?pre @ [(?u, tick_at 1002 Edited 1002)])) = lit ''c''"
    unfolding build_text_def assemble_log_def cap_log_def Let_def parts l b
    by (simp add: join_def sanitize_html_def replace_char_def lit_def)
  with s p parts show ?thesis
    by simp
qed

section \<open>Throttle\<close>

text \<open>
  Claim C5. A \<open>final\<close> event asks for a render like every other dirty event, and the
  throttle applies to it: when the clock reading is less than \<open>render_interval\<close> after
  \<open>last_render_time\<close>, the call makes no edit on the sink, raises nothing and leaves the
  timestamp as it was.
\<close>

theorem final_is_throttled:
  assumes "status u = Some (lit ''final'')"
      and "t_now tk - last_render_time d < render_interval d"
  shows "snd (apply_event d u) \<and> sent (update d u tk) = [] \<and> raised (update d u tk) = None
         \<and> last_render_time (state (update d u tk)) = last_render_time d"
proof -
  obtain d' r where e: "apply_event d u = (d', r)"
    by (cases "apply_event d u")
  have dirty: "snd (apply_event d u)"
    using assms(1) by (simp add: apply_event_def lit_def Let_def)
  have t: "last_render_time d' = last_render_time d" "render_interval d' = render_interval d"
    using apply_event_time(1,2) [of d u] e by simp_all
  from dirty e assms(2) t show ?thesis
    by (simp add: update_def try_render_def)
qed

theorem final_is_throttled_witness:
  "status (ev ''final'' (Some (lit ''done''))) = Some (lit ''final'')
   \<and> t_now (tick_at 1001 Edited 1001) - last_render_time ((init 7 9)\<lparr> last_render_time := 1000 \<rparr>)
       < render_interval ((init 7 9)\<lparr> last_render_time := 1000 \<rparr>)
   \<and> sent (update ((init 7 9)\<lparr> last_render_time := 1000 \<rparr>) (ev ''final'' (Some (lit ''done'')))
        (tick_at 1001 Edited 1001)) = []"
proof -
  have s: "status (ev ''final'' (Some (lit ''done''))) = Some (lit ''final'')"
    by (simp add: ev_def)
  have t: "t_now (tick_at 1001 Edited 1001) - last_render_time ((init 7 9)\<lparr> last_render_time := 1000 \<rparr>)
       < render_interval ((init 7 9)\<lparr> last_render_time := 1000 \<rparr>)"
    by (simp add: tick_at_def init_def)
  from final_is_throttled [OF s t] s t show ?thesis
    by simp
qed




section \<open>Sink failures\<close>

text \<open>
  Claim C9. When the sink's edit call raises an \<open>Exception\<close>, \<open>update\<close> returns normally:
  nothing is raised to the caller, the event has been applied to the state, and the sink
  has been called at most once in this \<open>update\<close> (no retry).
\<close>

theorem sink_failure_swallowed:
  assumes "sink_reply tk = Raises (Exception msg)"
  shows "raised (update d u tk) = None
         \<and> state (update d u tk) = fst (apply_event d u)
         \<and> (sent (update d u tk) = [] \<or>
            sent (update d u tk) = [(chat_id d, message_id d, build_text (fst (apply_event d u)))])"
proof -
  obtain d' r where e: "apply_event d u = (d', r)"
    by (cases "apply_event d u")
  have i: "chat_id d' = chat_id d" "message_id d' = message_id d"
    using apply_event_time(3,4) [of d u] e by simp_all
  from assms e i show ?thesis
    by (simp add: update_def try_render_def Let_def)
qed

theorem sink_failure_swallowed_witness:
  "sink_reply (tick_at 1000 (Raises (Exception (lit ''Message is not modified''))) 1001)
     = Raises (Exception (lit ''Message is not modified''))
   \<and> raised (update (init 7 9) (ev ''thinking'' (Some (lit ''hm'')))
        (tick_at 1000 (Raises (Exception (lit ''Message is not modified''))) 1001)) = None
   \<and> length (sent (update (init 7 9) (ev ''thinking'' (Some (lit ''hm'')))
        (tick_at 1000 (Raises (Exception (lit ''Message is not modified''))) 1001))) = 1
   \<and> current_thinking_buffer (state (update (init 7 9) (ev ''thinking'' (Some (lit ''hm'')))
        (tick_at 1000 (Raises (Exception (lit ''Message is not modified''))) 1001))) = [lit ''hm'']"
proof -
  let ?tk = "tick_at 1000 (Raises (Exception (lit ''Message is not modified''))) 1001"
  let ?u = "ev ''thinking'' (Some (lit ''hm''))"
  have r: "sink_reply ?tk = Raises (Exception (lit ''Message is not modified''))"
    by (simp add: tick_at_def)
  have a: "fst (apply_event (init 7 9) ?u) = (init 7 9)\<lparr> current_thinking_buffer := [lit ''hm''] \<rparr>"
    by (simp add: apply_event_def ev_def init_def lit_def)
  have n: "sent (update (init 7 9) ?u ?tk) \<noteq> []"
    by (simp add: update_def apply_event_def try_render_def ev_def init_def tick_at_def lit_def Let_def)
  from sink_failure_swallowed [OF r, of "init 7 9" ?u] r a n show ?thesis
    by auto
qed

text \<open>
  Claim C10. When the sink's edit call raises, the render attempt leaves the whole state
  as it was: after \<open>update\<close> the state is the one the event produced, with
  \<open>last_render_time\<close> unchanged. If that \<open>update\<close> did reach the sink, the next dirty event
  whose clock reading is not earlier reaches the sink as well, with the text of the state
  at that moment.
\<close>

theorem failed_render_keeps_state:
  assumes "sink_reply tk = Raises e"
  shows "state (try_render d force tk) = d
         \<and> state (update d u tk) = fst (apply_event d u)
         \<and> last_render_time (state (update d u tk)) = last_render_time d
         \<and> (sent (update d u tk) \<noteq> [] \<and> t_now tk \<le> t_now tk'
              \<and> snd (apply_event (state (update d u tk)) u')
            \<longrightarrow> sent (update (state (update d u tk)) u' tk') =
                  [(chat_id d, message_id d,
                    build_text (fst (apply_event (state (update d u tk)) u')))])"
proof -
  obtain d' r where e: "apply_event d u = (d', r)"
    by (cases "apply_event d u")
  have i: "chat_id d' = chat_id d" "message_id d' = message_id d"
      "last_render_time d' = last_render_time d" "render_interval d' = render_interval d"
    using apply_event_time [of d u] e by simp_all
  have keep: "state (try_render x force tk) = x" for x
    using assms by (simp add: try_render_def Let_def split: exn.splits)
  have st: "state (update d u tk) = d'"
    using assms e by (simp add: update_def try_render_def Let_def split: exn.splits)
  have next_call: "sent (update d' u' tk') =
        [(chat_id d, message_id d, build_text (fst (apply_event d' u')))]"
    if s: "sent (update d u tk) \<noteq> []" and m: "t_now tk \<le> t_now tk'"
      and dirty: "snd (apply_event d' u')"
  proof -
    obtain d'' r'' where e': "apply_event d' u' = (d'', r'')"
      by (cases "apply_event d' u'")
    have i': "chat_id d'' = chat_id d'" "message_id d'' = message_id d'"
        "last_render_time d'' = last_render_time d'" "render_interval d'' = render_interval d'"
      using apply_event_time [of d' u'] e' by simp_all
    have elig: "\<not> t_now tk - last_render_time d' < render_interval d'"
      using s e by (auto simp: update_def try_render_def split: if_splits)
    then have "\<not> t_now tk' - last_render_time d'' < render_interval d''"
      using m i' by simp
    with dirty e' i i' show ?thesis
      by (auto simp: update_def try_render_def Let_def split: reply.splits exn.splits)
  qed
  from keep st e i next_call show ?thesis
    by simp
qed

theorem failed_render_keeps_state_witness:
  "sink_reply (tick_at 1000 (Raises (Exception (lit ''Flood control exceeded''))) 1001)
     = Raises (Exception (lit ''Flood control exceeded''))
   \<and> sent (update (init 7 9) (ev ''thinking'' (Some (lit ''a'')))
        (tick_at 1000 (Raises (Exception (lit ''Flood control exceeded''))) 1001)) \<noteq> []
   \<and> last_render_time (state (update (init 7 9) (ev ''thinking'' (Some (lit ''a'')))
        (tick_at 1000 (Raises (Exception (lit ''Flood control exceeded''))) 1001))) = 0
   \<and> length (sent (update
        (state (update (init 7 9) (ev ''thinking'' (Some (lit ''a'')))
           (tick_at 1000 (Raises (Exception (lit ''Flood control exceeded''))) 1001)))
        (ev ''thinking'' (Some (lit ''b''))) (tick_at 1000 Edited 1000))) = 1"
proof -
  let ?tk = "tick_at 1000 (Raises (Exception (lit ''Flood control exceeded''))) 1001"
  let ?u = "ev ''thinking'' (Some (lit ''a''))"
  let ?u' = "ev ''thinking'' (Some (lit ''b''))"
  let ?tk' = "tick_at 1000 Edited 1000"
  have r: "sink_reply ?tk = Raises (Exception (lit ''Flood control exceeded''))"
    by (simp add: tick_at_def)
  have n: "sent (update (init 7 9) ?u ?tk) \<noteq> []"
    by (simp add: update_def apply_event_def try_render_def ev_def init_def tick_at_def lit_def Let_def)
  have m: "t_now ?tk \<le> t_now ?tk'"
    by (simp add: tick_at_def)
  have dirty: "snd (apply_event x ?u')" for x
    by (simp add: apply_event_def ev_def lit_def)
  have z: "last_render_time (init 7 9) = 0"
    by (simp add: init_def)
  note k = failed_render_keeps_state [OF r, where d = "init 7 9" and u = ?u and tk' = ?tk'
      and u' = ?u' and force = False]
  from k have "last_render_time (state (update (init 7 9) ?u ?tk)) = last_render_time (init 7 9)"
    by blast
  with z have t: "last_render_time (state (update (init 7 9) ?u ?tk)) = 0"
    by (simp only:)
  from k n m dirty have "sent (update (state (update (init 7 9) ?u ?tk)) ?u' ?tk') =
      [(chat_id (init 7 9), message_id (init 7 9),
        build_text (fst (apply_event (state (update (init 7 9) ?u ?tk)) ?u')))]"
    by blast
  then have "length (sent (update (state (update (init 7 9) ?u ?tk)) ?u' ?tk')) = 1"
    by simp
  with r n t show ?thesis
    by blast
qed

section \<open>Text assembly\<close>

text \<open>
  Claim C6. Let \<open>L\<close> be the assembled log section. When \<open>L\<close> has more than 2000 characters,
  the capped section is the marker line \<open>...(earlier logs)...\<close> followed by \<open>kept\<close>, the last
  2000 characters of \<open>L\<close> (what was cut is a prefix of \<open>L\<close>), and that is what the output
  wraps in the quote block. When \<open>L\<close> has at most 2000 characters it is kept as it is.
\<close>

theorem log_cap_keeps_recent:
  assumes "L = assemble_log d"
      and "kept = drop (length L - 2000) L"
      and "answer = sanitize_html (join (final_response_parts d))"
  shows "(length L > 2000 \<longrightarrow>
            length kept = 2000 \<and> take (length L - 2000) L @ kept = L
            \<and> cap_log L = lit ''...(earlier logs)...'' @ nl @ kept
            \<and> build_text d = lit ''<blockquote>'' @ lit ''...(earlier logs)...'' @ nl @ kept
                  @ lit ''</blockquote>'' @ nl @ nl @ answer)
       \<and> (length L \<le> 2000 \<longrightarrow>
            cap_log L = L
            \<and> (L \<noteq> [] \<longrightarrow>
                 build_text d = lit ''<blockquote>'' @ L @ lit ''</blockquote>'' @ nl @ nl @ answer))"
proof -
  have long: "cap_log L = lit ''...(earlier logs)...'' @ nl @ kept" if "length L > 2000"
    using that assms(2) by (simp add: cap_log_def max_log_len_def)
  have short: "cap_log L = L" if "length L \<le> 2000"
    using that by (simp add: cap_log_def max_log_len_def)
  have ne: "lit ''...(earlier logs)...'' @ nl @ kept \<noteq> []"
    by (simp add: nl_def)
  have b1: "build_text d = lit ''<blockquote>'' @ lit ''...(earlier logs)...'' @ nl @ kept
                  @ lit ''</blockquote>'' @ nl @ nl @ answer" if "length L > 2000"
    using long [OF that] ne assms(1,3) by (simp add: build_text_def Let_def lit_def nl_def)
  have b2: "build_text d = lit ''<blockquote>'' @ L @ lit ''</blockquote>'' @ nl @ nl @ answer"
    if "length L \<le> 2000" and "L \<noteq> []"
    using short [OF that(1)] that(2) assms(1,3) by (simp add: build_text_def Let_def lit_def nl_def)
  have k: "length kept = 2000" if "length L > 2000"
    using that assms(2) by simp
  have t: "take (length L - 2000) L @ kept = L"
    using assms(2) by simp
  from long short b1 b2 k t show ?thesis
    by blast
qed

theorem log_cap_keeps_recent_witness:
  "assemble_log ((init 7 9)\<lparr> current_thinking_buffer := [replicate 2100 97] \<rparr>)
     = glyph_think @ lit '' <i>Thinking...</i> '' @ replicate 2100 97 @ nl
   \<and> length (glyph_think @ lit '' <i>Thinking...</i> '' @ replicate 2100 97 @ nl) = 2125
   \<and> build_text ((init 7 9)\<lparr> current_thinking_buffer := [replicate 2100 97] \<rparr>)
     = lit ''<blockquote>'' @ lit ''...(earlier logs)...'' @ nl @ (replicate 1999 97 @ nl)
         @ lit ''</blockquote>'' @ nl @ nl @ []"
proof -
  let ?d = "(init 7 9)\<lparr> current_thinking_buffer := [replicate 2100 97] \<rparr>"
  let ?L = "glyph_think @ lit '' <i>Thinking...</i> '' @ replicate 2100 97 @ nl"
  have L: "?L = assemble_log ?d"
    by (simp add: assemble_log_def init_def join_def sanitize_html_replicate_plain)
  have n: "length ?L = 2125"
    by (simp add: glyph_think_def lit_def nl_def)
  have k: "replicate 1999 97 @ nl = drop (length ?L - 2000) ?L"
    unfolding n by (simp add: glyph_think_def lit_def nl_def)
  have a: "[] = sanitize_html (join (final_response_parts ?d))"
    by (simp add: init_def join_def sanitize_html_def)
  from log_cap_keeps_recent [OF L k a] L n show ?thesis
    by simp
qed

text \<open>
  Claim C7, as stated, fails: the truncated payload is HTML-escaped before it is put into
  the line, so a payload of 150 characters \<open><\<close> is rendered as 150 times \<open>&lt;\<close>, which is
  not the payload unmodified.
\<close>

theorem tool_result_escaped_counterexample:
  "length (replicate 150 (60::nat)) = 150
   \<and> render_entry (Tool_result (PStr (replicate 150 60)))
       = glyph_result @ lit '' <b>Result:</b> '' @ concat (replicate 150 (lit ''&lt;'')) @ nl @ nl
   \<and> render_entry (Tool_result (PStr (replicate 150 60)))
       \<noteq> glyph_result @ lit '' <b>Result:</b> '' @ replicate 150 60 @ nl @ nl"
proof -
  have r: "render_entry (Tool_result (PStr (replicate 150 60)))
       = glyph_result @ lit '' <b>Result:</b> '' @ concat (replicate 150 (lit ''&lt;'')) @ nl @ nl"
    by (simp add: sanitize_html_replicate_lt)
  have "length (concat (replicate 150 (lit ''&lt;''))) \<noteq> length (replicate 150 (60::nat))"
    by (simp add: length_concat_replicate lit_def)
  then have "concat (replicate 150 (lit ''&lt;'')) \<noteq> replicate 150 60"
    by metis
  with r show ?thesis
    by simp
qed

text \<open>
  Claim C7, amended. A result whose text has more than 200 characters is rendered as the
  HTML-escaped form of its first 200 characters followed by the marker \<open>...\<close>; a result of at
  most 200 characters is rendered as its HTML-escaped form with no marker. When the text
  contains none of \<open>&\<close>, \<open><\<close>, \<open>>\<close> the escaped form is the text itself, so a 250-character
  payload of such characters renders as exactly its first 200 characters and the marker,
  and a 150-character one renders unmodified.
\<close>

theorem tool_result_truncation:
  "(length (py_str r) > 200 \<longrightarrow>
      render_entry (Tool_result r) =
        glyph_result @ lit '' <b>Result:</b> '' @ sanitize_html (take 200 (py_str r)) @ lit ''...''
          @ nl @ nl)
   \<and> (length (py_str r) \<le> 200 \<longrightarrow>
      render_entry (Tool_result r) =
        glyph_result @ lit '' <b>Result:</b> '' @ sanitize_html (py_str r) @ nl @ nl)
   \<and> (38 \<notin> set (py_str r) \<and> 60 \<notin> set (py_str r) \<and> 62 \<notin> set (py_str r) \<longrightarrow>
      sanitize_html (take 200 (py_str r)) = take 200 (py_str r)
      \<and> sanitize_html (py_str r) = py_str r)"
proof -
  have dots: "sanitize_html (lit ''...'') = lit ''...''"
    by (rule sanitize_html_plain) (simp_all add: lit_def)
  have long: "render_entry (Tool_result r) =
        glyph_result @ lit '' <b>Result:</b> '' @ sanitize_html (take 200 (py_str r)) @ lit ''...''
          @ nl @ nl" if "length (py_str r) > 200"
    using that by (simp add: sanitize_html_append dots)
  have short: "render_entry (Tool_result r) =
        glyph_result @ lit '' <b>Result:</b> '' @ sanitize_html (py_str r) @ nl @ nl"
    if "length (py_str r) \<le> 200"
    using that by simp
  have plain: "sanitize_html (take 200 (py_str r)) = take 200 (py_str r)
      \<and> sanitize_html (py_str r) = py_str r"
    if "38 \<notin> set (py_str r) \<and> 60 \<notin> set (py_str r) \<and> 62 \<notin> set (py_str r)"
  proof -
    have "38 \<notin> set (take 200 (py_str r))" "60 \<notin> set (take 200 (py_str r))"
        "62 \<notin> set (take 200 (py_str r))"
      using that by (auto dest: in_set_takeD)
    with that show ?thesis
      by (simp add: sanitize_html_plain)
  qed
  from long short plain show ?thesis
    by blast
qed

theorem tool_result_truncation_witness:
  "length (py_str (PStr (replicate 250 120))) > 200
   \<and> render_entry (Tool_result (PStr (replicate 250 120)))
       = glyph_result @ lit '' <b>Result:</b> '' @ replicate 200 120 @ lit ''...'' @ nl @ nl
   \<and> length (py_str (PStr (replicate 150 120))) \<le> 200
   \<and> render_entry (Tool_result (PStr (replicate 150 120)))
       = glyph_result @ lit '' <b>Result:</b> '' @ replicate 150 120 @ nl @ nl"
proof -
  let ?a = "PStr (replicate 250 120)"
  let ?b = "PStr (replicate 150 120)"
  have la: "length (py_str ?a) > 200" and lb: "length (py_str ?b) \<le> 200"
    by simp_all
  have pa: "38 \<notin> set (py_str ?a) \<and> 60 \<notin> set (py_str ?a) \<and> 62 \<notin> set (py_str ?a)"
    by simp
  have pb: "38 \<notin> set (py_str ?b) \<and> 60 \<notin> set (py_str ?b) \<and> 62 \<notin> set (py_str ?b)"
    by simp
  from tool_result_truncation [of ?a] la pa
  have a: "render_entry (Tool_result ?a) =
      glyph_result @ lit '' <b>Result:</b> '' @ take 200 (py_str ?a) @ lit ''...'' @ nl @ nl"
    by metis
  from tool_result_truncation [of ?b] lb pb
  have b: "render_entry (Tool_result ?b) =
      glyph_result @ lit '' <b>Result:</b> '' @ py_str ?b @ nl @ nl"
    by metis
  from a b la lb show ?thesis
    by simp
qed

text \<open>
  Claim C8: the text handed to the sink has at most 4096 characters. The source caps the
  log section "to keep message valid (Telegram limit 4096)" and says it reserves 2000
  characters for the final answer, but it never limits the final answer: by
  \<open>build_text_length_bound\<close> the output is within 2048 characters plus the escaped answer,
  and a \<open>final\<close> event with 4097 characters of content on a fresh display sends a text of
  4097 characters.
\<close>

theorem final_answer_exceeds_limit:
  "sent (update (init 7 9) (ev ''final'' (Some (replicate 4097 97))) (tick_at 1000 Edited 1000))
     = [(7, 9, replicate 4097 97)]
   \<and> build_text (state (update (init 7 9) (ev ''final'' (Some (replicate 4097 97)))
        (tick_at 1000 Edited 1000))) = replicate 4097 97
   \<and> \<not> length (replicate 4097 (97::nat)) \<le> 4096"
proof -
  let ?d = "(init 7 9)\<lparr> final_response_parts := [replicate 4097 97] \<rparr>"
  have e: "apply_event (init 7 9) (ev ''final'' (Some (replicate 4097 97))) = (?d, True)"
    by (simp add: apply_event_def ev_def init_def flush_thinking_def lit_def Let_def)
  have b: "build_text (?d\<lparr> last_render_time := t \<rparr>) = replicate 4097 97" for t
    by (simp add: build_text_def assemble_log_def cap_log_def init_def join_def
        sanitize_html_replicate_plain)
  have b0: "build_text ?d = replicate 4097 97"
    by (simp add: build_text_def assemble_log_def cap_log_def init_def join_def
        sanitize_html_replicate_plain)
  have s: "sent (update (init 7 9) (ev ''final'' (Some (replicate 4097 97)))
      (tick_at 1000 Edited 1000)) = [(7, 9, replicate 4097 97)]"
    by (simp add: update_def e try_render_def tick_at_def Let_def b0) (simp add: init_def)
  have st: "state (update (init 7 9) (ev ''final'' (Some (replicate 4097 97)))
      (tick_at 1000 Edited 1000)) = ?d\<lparr> last_render_time := 1000 \<rparr>"
    by (simp add: update_def e try_render_def tick_at_def Let_def) (simp add: init_def)
  from s st b [of 1000] show ?thesis
    by simp
qed

end
